theory Spec2Isabelle
  imports Complex_Main
begin

section \<open>Quantum Battleships with partial NOT gates\<close>

text \<open>
  The embedded program is the main loop of the notebook
  \<^verbatim>\<open>community/games/battleships_with_partial_NOT_gates.ipynb\<close>.

  \<^item> \<^verbatim>\<open>bomb\<close> is a list of two rows of five counters, \<^verbatim>\<open>bomb[X][Y]\<close> being the number of
    times position \<^verbatim>\<open>Y\<close> has been bombed by player \<^verbatim>\<open>X+1\<close>. The counters start at zero and
    are only handed to \<^verbatim>\<open>range\<close>, so they are naturals here.
  \<^item> \<^verbatim>\<open>shipPos[player][ship]\<close> is the position of the ship with index \<^verbatim>\<open>ship\<close> (0, 1, 2)
    of \<^verbatim>\<open>player\<close> (0, 1); positions are list indices, naturals here.
  \<^item> Python floats are idealised as reals: \<^verbatim>\<open>math.pi\<close> is \<open>pi\<close>, \<^verbatim>\<open>1/(ship+1)\<close> is the
    exact quotient.
  \<^item> A read past the end of a list raises \<^verbatim>\<open>IndexError\<close>; it is a value of the model.
\<close>

subsection \<open>Data\<close>

datatype error = IndexError | InvalidPosition

type_synonym ledger = "nat list list"
type_synonym placement = "nat list list"

text \<open>
  The two operations of \<^verbatim>\<open>QuantumCircuit\<close> that the loop calls:
  \<^verbatim>\<open>u3(theta, phi, lam, q[i])\<close> and \<^verbatim>\<open>measure(q[i], c[j])\<close>. A circuit is the list of
  the calls made on it, in order.
\<close>

datatype gate = U3 real real real nat | Measure nat nat

type_synonym circuit = "gate list"

subsection \<open>Building the circuit of one player's grid\<close>

text \<open>\<^verbatim>\<open>xs[i]\<close> for an index that is never negative.\<close>

definition index :: "'a list \<Rightarrow> nat \<Rightarrow> error + 'a" where
  "index xs i = (if i < length xs then Inr (xs ! i) else Inl IndexError)"

text \<open>\<^verbatim>\<open>xss[i][j]\<close>: the outer read comes first.\<close>

definition index2 :: "'a list list \<Rightarrow> nat \<Rightarrow> nat \<Rightarrow> error + 'a" where
  "index2 xss i j = (case index xss i of Inl e \<Rightarrow> Inl e | Inr xs \<Rightarrow> index xs j)"

text \<open>\<^verbatim>\<open>frac = 1/(ship+1)\<close> (HOL has a constant \<open>frac\<close> of its own, the fractional part.)\<close>

definition frac_ship :: "nat \<Rightarrow> real" where
  "frac_ship ship = 1 / (real ship + 1)"

text \<open>
  \<^verbatim>\<open>
  for ship in [0,1,2]:
      if ( position == shipPos[player][ship] ):
          frac = 1/(ship+1)
          qc[player].u3(frac * math.pi, 0.0, 0.0, q[position])
  \<close>
  The circuit built so far is passed along and returned extended.
\<close>

fun ship_loop :: "placement \<Rightarrow> nat \<Rightarrow> nat \<Rightarrow> nat list \<Rightarrow> circuit \<Rightarrow> error + circuit" where
  "ship_loop shipPos player position [] qc = Inr qc"
| "ship_loop shipPos player position (ship # ships) qc =
     (case index2 shipPos player ship of
        Inl e \<Rightarrow> Inl e
      | Inr sp \<Rightarrow>
          ship_loop shipPos player position ships
            (if position = sp then qc @ [U3 (frac_ship ship * pi) 0 0 position] else qc))"

text \<open>
  \<^verbatim>\<open>for n in range( bomb[(player+1)%2][position] ):\<close> with the body above; the first
  argument is the number of iterations left.
\<close>

fun bomb_loop :: "nat \<Rightarrow> placement \<Rightarrow> nat \<Rightarrow> nat \<Rightarrow> circuit \<Rightarrow> error + circuit" where
  "bomb_loop 0 shipPos player position qc = Inr qc"
| "bomb_loop (Suc n) shipPos player position qc =
     (case ship_loop shipPos player position [0, 1, 2] qc of
        Inl e \<Rightarrow> Inl e
      | Inr qc' \<Rightarrow> bomb_loop n shipPos player position qc')"

text \<open>\<^verbatim>\<open>for position in range(5):\<close> adding the bombs of the opposing player.\<close>

fun position_loop :: "ledger \<Rightarrow> placement \<Rightarrow> nat \<Rightarrow> nat list \<Rightarrow> circuit \<Rightarrow> error + circuit" where
  "position_loop bomb shipPos player [] qc = Inr qc"
| "position_loop bomb shipPos player (position # positions) qc =
     (case index2 bomb ((player + 1) mod 2) position of
        Inl e \<Rightarrow> Inl e
      | Inr count \<Rightarrow>
          (case bomb_loop count shipPos player position qc of
             Inl e \<Rightarrow> Inl e
           | Inr qc' \<Rightarrow> position_loop bomb shipPos player positions qc'))"

text \<open>
  \<^verbatim>\<open>
  for position in range(5):
      qc[player].measure(q[position], c[position])
  \<close>
\<close>

definition measure_all :: "circuit \<Rightarrow> circuit" where
  "measure_all qc = qc @ map (\<lambda>position. Measure position position) [0..<5]"

text \<open>The body of \<^verbatim>\<open>for player in range(2):\<close>, from the fresh circuit to the measurements.\<close>

definition build_circuit :: "ledger \<Rightarrow> placement \<Rightarrow> nat \<Rightarrow> error + circuit" where
  "build_circuit bomb shipPos player =
     (case position_loop bomb shipPos player [0..<5] [] of
        Inl e \<Rightarrow> Inl e
      | Inr qc \<Rightarrow> Inr (measure_all qc))"

subsection \<open>Running a circuit\<close>

text \<open>
  The meaning of the two library operations. Every qubit of a fresh register is in state
  \<open>|0\<rangle>\<close>, amplitudes \<open>(1, 0)\<close>. \<^verbatim>\<open>u3(theta, phi, lam)\<close> multiplies the amplitudes of its
  qubit by the matrix
  \<open>[[cos (theta/2), - e^(i lam) sin (theta/2)], [e^(i phi) sin (theta/2), e^(i (phi+lam)) cos (theta/2)]]\<close>.
  The circuits built above hold single-qubit gates only, so the register stays a product
  of one-qubit states and is kept as one amplitude pair per qubit. \<^verbatim>\<open>measure\<close> is the last
  operation on its qubit; what it stores for a classical bit is the probability with which
  one sample reads 1, the squared modulus of the second amplitude.
\<close>

type_synonym qubit = "complex \<times> complex"

definition u3 :: "real \<Rightarrow> real \<Rightarrow> real \<Rightarrow> qubit \<Rightarrow> qubit" where
  "u3 theta phi lam s =
     (complex_of_real (cos (theta / 2)) * fst s - cis lam * complex_of_real (sin (theta / 2)) * snd s,
      cis phi * complex_of_real (sin (theta / 2)) * fst s
        + cis (phi + lam) * complex_of_real (cos (theta / 2)) * snd s)"

record machine =
  qreg :: "nat \<Rightarrow> qubit"
  creg :: "nat \<Rightarrow> real"

definition fresh :: machine where
  "fresh = \<lparr>qreg = (\<lambda>_. (1, 0)), creg = (\<lambda>_. 0)\<rparr>"

fun apply_gate :: "gate \<Rightarrow> machine \<Rightarrow> machine" where
  "apply_gate (U3 theta phi lam q) m = m\<lparr>qreg := (qreg m)(q := u3 theta phi lam (qreg m q))\<rparr>"
| "apply_gate (Measure q c) m = m\<lparr>creg := (creg m)(c := (cmod (snd (qreg m q)))\<^sup>2)\<rparr>"

definition run :: "circuit \<Rightarrow> machine" where
  "run qc = fold apply_gate qc fresh"

text \<open>The probability that one sample of the circuit reads 1 in classical bit \<open>position\<close>.\<close>

definition p_one :: "circuit \<Rightarrow> nat \<Rightarrow> real" where
  "p_one qc position = creg (run qc) position"

text \<open>The sum of the angles \<open>theta\<close> of the gates applied to qubit \<open>q\<close>.\<close>

fun rotation_on :: "circuit \<Rightarrow> nat \<Rightarrow> real" where
  "rotation_on [] q = 0"
| "rotation_on (U3 theta phi lam q' # qc) q = (if q' = q then theta else 0) + rotation_on qc q"
| "rotation_on (Measure q' c # qc) q = rotation_on qc q"

text \<open>
  The probability of reading 1 at a position of a player's grid, for the circuit the loop
  builds from the ledger; the error of the loop if it raises.
\<close>

definition destruction_probability :: "ledger \<Rightarrow> placement \<Rightarrow> nat \<Rightarrow> nat \<Rightarrow> error + real" where
  "destruction_probability bomb shipPos player position =
     (case build_circuit bomb shipPos player of
        Inl e \<Rightarrow> Inl e
      | Inr qc \<Rightarrow> Inr (p_one qc position))"

text \<open>\<^verbatim>\<open>bomb = [ [0]*5 for _ in range(2)]\<close>\<close>

definition initial_bomb :: ledger where
  "initial_bomb = replicate 2 (replicate 5 0)"

text \<open>
  The lists the loop expects: two rows of five counters, two rows of three positions.
\<close>

definition ledger_shaped :: "ledger \<Rightarrow> bool" where
  "ledger_shaped bomb \<longleftrightarrow> length bomb = 2 \<and> (\<forall>row \<in> set bomb. length row = 5)"

definition well_shaped :: "ledger \<Rightarrow> placement \<Rightarrow> bool" where
  "well_shaped bomb shipPos \<longleftrightarrow>
     ledger_shaped bomb \<and> length shipPos = 2 \<and> (\<forall>row \<in> set shipPos. length row = 3)"

text \<open>The number of attacks the attacking player has recorded on a position.\<close>

definition attacks_on :: "ledger \<Rightarrow> nat \<Rightarrow> nat \<Rightarrow> nat" where
  "attacks_on bomb attacker position = bomb ! attacker ! position"

subsection \<open>The gates of a grid, as a list expression\<close>

text \<open>What one pass of the loop over the ships appends for a position.\<close>

definition ship_gates :: "placement \<Rightarrow> nat \<Rightarrow> nat \<Rightarrow> circuit" where
  "ship_gates shipPos player position =
     concat (map (\<lambda>ship. if position = shipPos ! player ! ship
                          then [U3 (frac_ship ship * pi) 0 0 position] else []) [0, 1, 2])"

text \<open>What the loop over the given positions appends.\<close>

definition grid_gates :: "ledger \<Rightarrow> placement \<Rightarrow> nat \<Rightarrow> nat list \<Rightarrow> circuit" where
  "grid_gates bomb shipPos player positions =
     concat (map (\<lambda>position. concat (replicate (bomb ! ((player + 1) mod 2) ! position)
                                        (ship_gates shipPos player position))) positions)"

text \<open>Circuits all of whose \<open>U3\<close> gates have \<open>phi = lam = 0\<close>, as the loop's have.\<close>

fun y_only :: "circuit \<Rightarrow> bool" where
  "y_only [] = True"
| "y_only (U3 theta phi lam q # qc) = (phi = 0 \<and> lam = 0 \<and> y_only qc)"
| "y_only (Measure q c # qc) = y_only qc"

text \<open>The state \<open>cos (a/2) |0\<rangle> + sin (a/2) |1\<rangle>\<close>.\<close>

definition rotated :: "real \<Rightarrow> qubit" where
  "rotated a = (complex_of_real (cos (a / 2)), complex_of_real (sin (a / 2)))"

subsection \<open>The ledger of attacks\<close>

text \<open>
  Modelled from the spec: \<^verbatim>\<open>ask_for_bombs\<close> is defined in
  \<^verbatim>\<open>game_engines/battleships_engine.py\<close>, which is not among the sources; the loop only
  calls it as \<^verbatim>\<open>bomb = ask_for_bombs( bomb )\<close>. The spec (4.2): recording an attack
  increments the cell of (attacking player, position) by 1 and fails with
  \<open>InvalidPosition\<close> if the position is outside 0..4.
\<close>

definition record_attack :: "ledger \<Rightarrow> nat \<Rightarrow> nat \<Rightarrow> error + ledger" where
  "record_attack bomb attacker position =
     (if position < 5
      then Inr (bomb[attacker := (bomb ! attacker)[position := bomb ! attacker ! position + 1]])
      else Inl InvalidPosition)"

text \<open>
  Modelled from the spec: \<^verbatim>\<open>ask_for_bombs\<close> (missing, see above), by the spec (4.4) one
  target per player and round, both recorded. The targets are the players' inputs, first
  player first.
\<close>

definition ask_for_bombs :: "ledger \<Rightarrow> nat \<times> nat \<Rightarrow> error + ledger" where
  "ask_for_bombs bomb targets =
     (case record_attack bomb 0 (fst targets) of
        Inl e \<Rightarrow> Inl e
      | Inr bomb' \<Rightarrow> record_attack bomb' 1 (snd targets))"

text \<open>
  The ledger after a sequence of rounds: each pass of \<^verbatim>\<open>while (game):\<close> starts with
  \<^verbatim>\<open>bomb = ask_for_bombs( bomb )\<close> and nothing else assigns \<^verbatim>\<open>bomb\<close>.
\<close>

fun rounds :: "ledger \<Rightarrow> (nat \<times> nat) list \<Rightarrow> error + ledger" where
  "rounds bomb [] = Inr bomb"
| "rounds bomb (targets # rest) =
     (case ask_for_bombs bomb targets of
        Inl e \<Rightarrow> Inl e
      | Inr bomb' \<Rightarrow> rounds bomb' rest)"

subsection \<open>Sampling and reporting\<close>

text \<open>
  Modelled from the spec: the samples of \<^verbatim>\<open>execute(qc, backend=device, shots=shots)\<close> are
  read and reported by \<^verbatim>\<open>display_grid\<close> of \<^verbatim>\<open>game_engines/battleships_engine.py\<close>, which is
  not among the sources. The spec (4.3): \<open>N\<close> independent Bernoulli samples with success
  probability \<open>p\<close>. A run of samples is a list of booleans; \<open>sample_prob p bs\<close> is the
  probability of drawing exactly \<open>bs\<close>, and the runs that can be drawn are those of
  positive probability.
\<close>

definition sample_prob :: "real \<Rightarrow> bool list \<Rightarrow> real" where
  "sample_prob p bs = prod_list (map (\<lambda>b. if b then p else 1 - p) bs)"

text \<open>
  Modelled from the spec: the count of \<open>display_grid\<close> (missing, see above), the number
  of successes among the samples (4.3, step 3).
\<close>

definition successes :: "bool list \<Rightarrow> nat" where
  "successes bs = length (filter (\<lambda>b. b) bs)"

text \<open>
  Modelled from the spec: the damage report of \<^verbatim>\<open>display_grid\<close> (missing, see above). The
  spec (4.3): \<open>damage_percent = round(100 * successes / N)\<close>, here the nearest whole
  percent with halves up, for \<open>N \<ge> 1\<close> samples.
\<close>

definition damage_percent :: "bool list \<Rightarrow> nat" where
  "damage_percent bs = (200 * successes bs + length bs) div (2 * length bs)"

text \<open>
  Modelled from the spec: the destruction state of \<^verbatim>\<open>display_grid\<close> (missing, see above).
  The spec (3): a ship is destroyed in a round's report iff its damage percentage is at
  least 95.
\<close>

definition destroyed :: "bool list \<Rightarrow> bool" where
  "destroyed bs \<longleftrightarrow> 95 \<le> damage_percent bs"

datatype report = Unknown | Percent nat

text \<open>
  Modelled from the spec: what \<^verbatim>\<open>display_grid\<close> (missing, see above) shows for a position of
  a player's grid, given the samples of that position. The loop calls
  \<^verbatim>\<open>display_grid ( grid, shipPos, shots )\<close>: the samples, the placements and the number of
  samples are passed, the ledger is not, so the report is a function of the samples and
  the placements. The spec (4.4, 9): the report maps the positions of ships to a percentage
  or \<open>unknown\<close>, and a position without a ship is unknown; (4.3, step 4): a position that
  shows no sign of an attack is unknown, "no information", which for a function of the
  samples is a run without a success (the game stored in the notebook shows \<^verbatim>\<open>?\<close> at every
  ship of the second player after the first round, all of whose samples read 0); otherwise
  the percentage of the full draw is reported.
\<close>

definition report_position :: "placement \<Rightarrow> nat \<Rightarrow> nat \<Rightarrow> bool list \<Rightarrow> report" where
  "report_position shipPos player position bs =
     (if position \<notin> set (shipPos ! player) then Unknown
      else if successes bs = 0 then Unknown
      else Percent (damage_percent bs))"

datatype outcome = Continue | Survivor nat | Draw

type_synonym fleet = "bool list \<times> bool list \<times> bool list"

text \<open>
  Modelled from the spec: part of the termination check of \<^verbatim>\<open>display_grid\<close> (missing, see
  above). The spec (3, 4.4): all three ships of a player show destruction state true after
  the round's measurement. A fleet is given by the samples of its three ships.
\<close>

fun fleet_destroyed :: "fleet \<Rightarrow> bool" where
  "fleet_destroyed (first, second, third) \<longleftrightarrow> destroyed first \<and> destroyed second \<and> destroyed third"

text \<open>
  Modelled from the spec: the termination check of \<^verbatim>\<open>display_grid\<close> (missing, see above).
  The spec (4.4): the game is over if all three ships of either player are destroyed,
  reporting which player's fleet survived, and a draw if both fleets are destroyed in the
  same round; otherwise the next round follows.
\<close>

definition game_over_report :: "fleet \<Rightarrow> fleet \<Rightarrow> outcome" where
  "game_over_report fleet0 fleet1 =
     (if fleet_destroyed fleet0 \<and> fleet_destroyed fleet1 then Draw
      else if fleet_destroyed fleet0 then Survivor 1
      else if fleet_destroyed fleet1 then Survivor 0
      else Continue)"

text \<open>
  Modelled from the spec: the value \<^verbatim>\<open>display_grid\<close> (missing, see above) returns to
  \<^verbatim>\<open>game = display_grid ( grid, shipPos, shots )\<close>, whether the loop goes on (4.4).
\<close>

definition display_grid_game :: "fleet \<Rightarrow> fleet \<Rightarrow> bool" where
  "display_grid_game fleet0 fleet1 \<longleftrightarrow> game_over_report fleet0 fleet1 = Continue"

section \<open>Properties\<close>

subsection \<open>The loop returns the list expression\<close>

lemma index2_in_range:
  "i < length xss \<Longrightarrow> j < length (xss ! i) \<Longrightarrow> index2 xss i j = Inr (xss ! i ! j)"
  by (simp add: index2_def index_def)

lemma ship_loop_gates:
  assumes "player < length shipPos" and "3 \<le> length (shipPos ! player)"
  shows "ship_loop shipPos player position [0, 1, 2] qc = Inr (qc @ ship_gates shipPos player position)"
proof -
  have "index2 shipPos player 0 = Inr (shipPos ! player ! 0)"
    "index2 shipPos player 1 = Inr (shipPos ! player ! 1)"
    "index2 shipPos player 2 = Inr (shipPos ! player ! 2)"
    using assms by (auto simp add: index2_def index_def)
  then show ?thesis
    by (simp add: ship_gates_def)
qed

lemma bomb_loop_gates:
  assumes "player < length shipPos" and "3 \<le> length (shipPos ! player)"
  shows "bomb_loop n shipPos player position qc =
           Inr (qc @ concat (replicate n (ship_gates shipPos player position)))"
proof (induction n arbitrary: qc)
  case 0
  show ?case by simp
next
  case (Suc n)
  have "ship_loop shipPos player position [0, 1, 2] qc = Inr (qc @ ship_gates shipPos player position)"
    using assms by (rule ship_loop_gates)
  then show ?case
    using Suc by (simp del: ship_loop.simps)
qed

lemma position_loop_gates:
  assumes "player < length shipPos" and "3 \<le> length (shipPos ! player)"
    and "(player + 1) mod 2 < length bomb"
    and "\<forall>position \<in> set positions. position < length (bomb ! ((player + 1) mod 2))"
  shows "position_loop bomb shipPos player positions qc =
           Inr (qc @ grid_gates bomb shipPos player positions)"
  using assms(4)
proof (induction positions arbitrary: qc)
  case Nil
  show ?case by (simp add: grid_gates_def)
next
  case (Cons position positions)
  then show ?case
    using assms(1-3) by (simp add: index2_in_range bomb_loop_gates grid_gates_def)
qed

lemma build_circuit_gates:
  assumes "well_shaped bomb shipPos" and "player < 2"
  shows "build_circuit bomb shipPos player = Inr (measure_all (grid_gates bomb shipPos player [0..<5]))"
proof -
  have "player < length shipPos" "3 \<le> length (shipPos ! player)"
    "(player + 1) mod 2 < length bomb"
    "\<forall>position \<in> set [0..<5]. position < length (bomb ! ((player + 1) mod 2))"
    using assms by (simp_all add: well_shaped_def ledger_shaped_def)
  then show ?thesis
    by (simp add: build_circuit_def position_loop_gates del: position_loop.simps)
qed


subsection \<open>The total rotation of a qubit\<close>

lemma rotation_on_append: "rotation_on (xs @ ys) q = rotation_on xs q + rotation_on ys q"
  by (induction xs q rule: rotation_on.induct) simp_all

lemma rotation_on_replicate:
  "rotation_on (concat (replicate n xs)) q = real n * rotation_on xs q"
  by (induction n) (simp_all add: rotation_on_append algebra_simps)

lemma rotation_on_concat_map:
  "rotation_on (concat (map f ps)) q = (\<Sum>p\<leftarrow>ps. rotation_on (f p) q)"
  by (induction ps) (simp_all add: rotation_on_append)

lemma rotation_on_measures: "rotation_on (map (\<lambda>p. Measure p p) ps) q = 0"
  by (induction ps) simp_all

lemma sum_list_single:
  "q < n \<Longrightarrow> (\<Sum>p\<leftarrow>[0..<n]. if p = q then x else 0) = (x::real)"
proof (induction n)
  case 0
  then show ?case by simp
next
  case (Suc n)
  show ?case
  proof (cases "q = n")
    case True
    have "(\<Sum>p\<leftarrow>[0..<n]. if p = n then x else 0) = (\<Sum>p\<leftarrow>[0..<n]. 0::real)"
      by (rule arg_cong [where f = sum_list], rule map_cong) simp_all
    then show ?thesis using True by simp
  next
    case False
    then have "q < n" using Suc.prems by simp
    then show ?thesis using Suc.IH False by simp
  qed
qed

lemma rotation_on_ship_gates_other:
  "position \<noteq> q \<Longrightarrow> rotation_on (ship_gates shipPos player position) q = 0"
  by (simp add: ship_gates_def)

lemma rotation_on_ship_gates_hit:
  assumes "distinct (shipPos ! player)" and "length (shipPos ! player) = 3" and "ship < 3"
  shows "rotation_on (ship_gates shipPos player (shipPos ! player ! ship)) (shipPos ! player ! ship)
           = frac_ship ship * pi"
proof -
  have eq: "\<And>s. s < 3 \<Longrightarrow> (shipPos ! player ! ship = shipPos ! player ! s) = (ship = s)"
    using assms by (simp add: nth_eq_iff_index_eq)
  have "ship = 0 \<or> ship = 1 \<or> ship = 2" using assms(3) by arith
  then show ?thesis
    using eq [of 0] eq [of 1] eq [of 2] by (auto simp add: ship_gates_def)
qed

lemma rotation_on_grid_gates:
  assumes "distinct (shipPos ! player)" and "length (shipPos ! player) = 3" and "ship < 3"
    and "shipPos ! player ! ship < 5"
  shows "rotation_on (grid_gates bomb shipPos player [0..<5]) (shipPos ! player ! ship)
           = real (bomb ! ((player + 1) mod 2) ! (shipPos ! player ! ship)) * (frac_ship ship * pi)"
proof -
  let ?q = "shipPos ! player ! ship"
  let ?x = "real (bomb ! ((player + 1) mod 2) ! ?q) * (frac_ship ship * pi)"
  have "rotation_on (grid_gates bomb shipPos player [0..<5]) ?q
          = (\<Sum>p\<leftarrow>[0..<5]. real (bomb ! ((player + 1) mod 2) ! p)
                 * rotation_on (ship_gates shipPos player p) ?q)"
    by (simp add: grid_gates_def rotation_on_concat_map rotation_on_replicate)
  also have "\<dots> = (\<Sum>p\<leftarrow>[0..<5]. if p = ?q then ?x else 0)"
    by (rule arg_cong [where f = sum_list], rule map_cong)
      (simp_all add: rotation_on_ship_gates_other rotation_on_ship_gates_hit [OF assms(1-3)])
  also have "\<dots> = ?x"
    using assms(4) by (rule sum_list_single)
  finally show ?thesis .
qed


subsection \<open>The state after a circuit of rotations\<close>

lemma u3_rotated: "u3 theta 0 0 (rotated a) = rotated (a + theta)"
  by (simp add: u3_def rotated_def cos_add sin_add add_divide_distrib algebra_simps)

lemma fresh_rotated: "qreg fresh q = rotated 0"
  by (simp add: fresh_def rotated_def)

lemma y_only_append: "y_only (xs @ ys) = (y_only xs \<and> y_only ys)"
  by (induction xs rule: y_only.induct) simp_all

lemma y_only_replicate: "y_only xs \<Longrightarrow> y_only (concat (replicate n xs))"
  by (induction n) (simp_all add: y_only_append)

lemma y_only_concat_map: "(\<And>p. y_only (f p)) \<Longrightarrow> y_only (concat (map f ps))"
  by (induction ps) (simp_all add: y_only_append)

lemma y_only_ship_gates: "y_only (ship_gates shipPos player position)"
  by (simp add: ship_gates_def)

lemma y_only_grid_gates: "y_only (grid_gates bomb shipPos player positions)"
  unfolding grid_gates_def
  by (rule y_only_concat_map, rule y_only_replicate, rule y_only_ship_gates)

lemma y_only_measures: "y_only (map (\<lambda>p. Measure p p) ps)"
  by (induction ps) simp_all

lemma qreg_fold:
  "y_only qc \<Longrightarrow> qreg m q = rotated a \<Longrightarrow>
     qreg (fold apply_gate qc m) q = rotated (a + rotation_on qc q)"
proof (induction qc arbitrary: m a rule: y_only.induct)
  case 1
  then show ?case by simp
next
  case (2 theta phi lam q' qc)
  have rest: "y_only qc" using "2.prems" by simp
  show ?case
  proof (cases "q' = q")
    case True
    have "qreg (apply_gate (U3 theta phi lam q') m) q = rotated (a + theta)"
      using "2.prems" True by (simp add: u3_rotated)
    from "2.IH" [OF rest this] show ?thesis
      using True by (simp add: add.assoc)
  next
    case False
    have "qreg (apply_gate (U3 theta phi lam q') m) q = rotated a"
      using "2.prems" False by simp
    from "2.IH" [OF rest this] show ?thesis
      using False by simp
  qed
next
  case (3 q' c qc)
  have rest: "y_only qc" using "3.prems" by simp
  have "qreg (apply_gate (Measure q' c) m) q = rotated a"
    using "3.prems" by simp
  from "3.IH" [OF rest this] show ?case by simp
qed

lemma qreg_run: "y_only qc \<Longrightarrow> qreg (run qc) q = rotated (rotation_on qc q)"
  using qreg_fold [of qc fresh q 0] by (simp add: run_def fresh_rotated)

lemma fold_measures_qreg:
  "qreg (fold apply_gate (map (\<lambda>p. Measure p p) ps) m) = qreg m"
  by (induction ps arbitrary: m) simp_all

lemma fold_measures_creg:
  "creg (fold apply_gate (map (\<lambda>p. Measure p p) ps) m) c
     = (if c \<in> set ps then (cmod (snd (qreg m c)))\<^sup>2 else creg m c)"
  by (induction ps arbitrary: m) (simp_all add: fold_measures_qreg)

lemma cmod_snd_rotated: "(cmod (snd (rotated a)))\<^sup>2 = (sin (a / 2))\<^sup>2"
  by (simp add: rotated_def)

lemma p_one_measure_all:
  assumes "y_only gs" and "position < 5"
  shows "p_one (measure_all gs) position = (sin (rotation_on gs position / 2))\<^sup>2"
proof -
  have "qreg (fold apply_gate gs fresh) position = rotated (rotation_on gs position)"
    using qreg_run [OF assms(1)] by (simp add: run_def)
  then show ?thesis
    using assms(2) by (simp add: p_one_def run_def measure_all_def fold_measures_creg cmod_snd_rotated)
qed

lemma rotation_on_measure_all: "rotation_on (measure_all gs) q = rotation_on gs q"
  by (simp add: measure_all_def rotation_on_append rotation_on_measures)

lemma qreg_run_measure_all:
  "y_only gs \<Longrightarrow> qreg (run (measure_all gs)) q = rotated (rotation_on gs q)"
  by (simp add: run_def measure_all_def fold_measures_qreg qreg_run [unfolded run_def])


lemma build_circuit_p_one:
  assumes "well_shaped bomb shipPos" and "player < 2" and "ship < 3"
    and "distinct (shipPos ! player)" and "shipPos ! player ! ship < 5"
  shows "\<exists>qc. build_circuit bomb shipPos player = Inr qc \<and>
           rotation_on qc (shipPos ! player ! ship)
             = real (bomb ! ((player + 1) mod 2) ! (shipPos ! player ! ship)) * (frac_ship ship * pi) \<and>
           qreg (run qc) (shipPos ! player ! ship) = rotated (rotation_on qc (shipPos ! player ! ship)) \<and>
           p_one qc (shipPos ! player ! ship) = (sin (rotation_on qc (shipPos ! player ! ship) / 2))\<^sup>2"
proof -
  let ?gs = "grid_gates bomb shipPos player [0..<5]"
  have len: "length (shipPos ! player) = 3"
    using assms(1,2) by (simp add: well_shaped_def ledger_shaped_def)
  have "build_circuit bomb shipPos player = Inr (measure_all ?gs)"
    using assms(1,2) by (rule build_circuit_gates)
  moreover have "rotation_on (measure_all ?gs) (shipPos ! player ! ship)
      = real (bomb ! ((player + 1) mod 2) ! (shipPos ! player ! ship)) * (frac_ship ship * pi)"
    using rotation_on_grid_gates [OF assms(4) len assms(3,5)]
    by (simp add: rotation_on_measure_all)
  moreover have "qreg (run (measure_all ?gs)) (shipPos ! player ! ship)
      = rotated (rotation_on (measure_all ?gs) (shipPos ! player ! ship))"
    by (simp add: qreg_run_measure_all y_only_grid_gates rotation_on_measure_all)
  moreover have "p_one (measure_all ?gs) (shipPos ! player ! ship)
      = (sin (rotation_on (measure_all ?gs) (shipPos ! player ! ship) / 2))\<^sup>2"
    using assms(5) by (simp add: p_one_measure_all y_only_grid_gates rotation_on_measure_all)
  ultimately show ?thesis by blast
qed

lemma u3_fresh: "u3 theta 0 0 (1, 0) = rotated theta"
  by (simp add: u3_def rotated_def)

subsection \<open>Rotation and destruction probability of a ship\<close>

text \<open>
  Claim C1. For every ship of the defending player, whatever the ledger, the circuit of
  the player's grid rotates the ship's qubit in total by (the number of attacks the
  attacking player has recorded on the ship's position) times \<open>1 / order_index\<close> times
  \<open>pi\<close>, where the order index is \<open>ship + 1\<close>: the partial flips compose to the single
  rotation by the total angle, and one sample reads 1 with probability
  \<open>sin\<^sup>2 (rotation / 2)\<close>. The three ships of the player are at distinct positions of the
  board.
\<close>

theorem total_rotation_of_ship:
  assumes "well_shaped bomb shipPos" and "player < 2" and "ship < 3"
    and "distinct (shipPos ! player)" and "shipPos ! player ! ship < 5"
  shows "\<exists>qc. build_circuit bomb shipPos player = Inr qc \<and>
           rotation_on qc (shipPos ! player ! ship)
             = real (attacks_on bomb ((player + 1) mod 2) (shipPos ! player ! ship))
                 * (1 / real (ship + 1)) * pi \<and>
           qreg (run qc) (shipPos ! player ! ship)
             = u3 (rotation_on qc (shipPos ! player ! ship)) 0 0 (1, 0) \<and>
           p_one qc (shipPos ! player ! ship)
             = (sin (rotation_on qc (shipPos ! player ! ship) / 2))\<^sup>2"
  using build_circuit_p_one [OF assms]
  by (simp add: attacks_on_def frac_ship_def u3_fresh add.commute)

theorem total_rotation_of_ship_witness:
  "well_shaped [[1, 0, 1, 0, 0], [0, 2, 0, 0, 1]] [[0, 1, 2], [2, 3, 4]] \<and>
   (0::nat) < 2 \<and> (1::nat) < 3 \<and> distinct ([[0, 1, 2], [2, 3, 4]] ! 0 :: nat list) \<and>
   ([[0, 1, 2], [2, 3, 4]] ! 0 ! 1 :: nat) < 5 \<and>
   (\<exists>qc. build_circuit [[1, 0, 1, 0, 0], [0, 2, 0, 0, 1]] [[0, 1, 2], [2, 3, 4]] 0 = Inr qc \<and>
         rotation_on qc 1 = pi \<and> p_one qc 1 = 1)"
proof -
  have h: "well_shaped [[1, 0, 1, 0, 0], [0, 2, 0, 0, 1]] [[0, 1, 2], [2, 3, 4]]"
    by (simp add: well_shaped_def ledger_shaped_def)
  show ?thesis
    using h total_rotation_of_ship [of "[[1, 0, 1, 0, 0], [0, 2, 0, 0, 1]]" "[[0, 1, 2], [2, 3, 4]]" 0 1]
    by (auto simp add: attacks_on_def)
qed


subsection \<open>What the circuit of a grid depends on\<close>

lemma position_loop_cong:
  assumes "index bomb ((player + 1) mod 2) = index bomb' ((player + 1) mod 2)"
  shows "position_loop bomb shipPos player positions qc
           = position_loop bomb' shipPos player positions qc"
proof (induction positions arbitrary: qc)
  case Nil
  show ?case by simp
next
  case (Cons position positions)
  have "index2 bomb ((player + 1) mod 2) position = index2 bomb' ((player + 1) mod 2) position"
    using assms by (simp add: index2_def)
  then show ?case
    using Cons.IH by (simp split: sum.splits)
qed

text \<open>
  Claim C10. A player's own recorded attacks never affect the circuit of that player's own
  grid: two ledgers that agree on the row of the opposing player, and differ in any way
  elsewhere, give the same circuit (or the same error), and so the same distribution of
  the reported damage. Only \<^verbatim>\<open>bomb[(player+1)%2]\<close> is read.
\<close>

theorem own_attacks_do_not_reach_own_grid:
  assumes "index bomb ((player + 1) mod 2) = index bomb' ((player + 1) mod 2)"
  shows "build_circuit bomb shipPos player = build_circuit bomb' shipPos player"
  using position_loop_cong [OF assms] by (simp add: build_circuit_def)

theorem own_attacks_do_not_reach_own_grid_witness:
  "index [[1, 0, 1, 0, 0], [0, 2, 0, 0, 1 :: nat]] ((0 + 1) mod 2)
     = index [[0, 7, 0, 3, 0], [0, 2, 0, 0, 1]] ((0 + 1) mod 2) \<and>
   build_circuit [[1, 0, 1, 0, 0], [0, 2, 0, 0, 1]] [[0, 1, 2], [2, 3, 4]] 0
     = build_circuit [[0, 7, 0, 3, 0], [0, 2, 0, 0, 1]] [[0, 1, 2], [2, 3, 4]] 0"
proof -
  have h: "index [[1, 0, 1, 0, 0], [0, 2, 0, 0, 1 :: nat]] ((0 + 1) mod 2)
             = index [[0, 7, 0, 3, 0], [0, 2, 0, 0, 1]] ((0 + 1) mod 2)"
    by (simp add: index_def)
  show ?thesis
    using h own_attacks_do_not_reach_own_grid [OF h, of "[[0, 1, 2], [2, 3, 4]]"] by simp
qed

lemma ship_gates_empty:
  assumes "length (shipPos ! player) = 3" and "e \<notin> set (shipPos ! player)"
  shows "ship_gates shipPos player e = []"
proof -
  have "shipPos ! player ! 0 \<in> set (shipPos ! player)"
    "shipPos ! player ! 1 \<in> set (shipPos ! player)"
    "shipPos ! player ! 2 \<in> set (shipPos ! player)"
    using assms(1) by (simp_all del: One_nat_def)
  then have "e \<noteq> shipPos ! player ! 0" "e \<noteq> shipPos ! player ! 1" "e \<noteq> shipPos ! player ! 2"
    using assms(2) by auto
  then show ?thesis by (simp add: ship_gates_def del: One_nat_def)
qed

lemma grid_gates_empty_position:
  assumes "length (shipPos ! player) = 3" and "e \<notin> set (shipPos ! player)"
    and "(player + 1) mod 2 < length bomb"
  shows "grid_gates (bomb[(player + 1) mod 2 := (bomb ! ((player + 1) mod 2))[e := n]]) shipPos player positions
           = grid_gates bomb shipPos player positions"
  unfolding grid_gates_def
proof (rule arg_cong [where f = concat], rule map_cong)
  fix position
  show "concat (replicate
           (bomb[(player + 1) mod 2 := (bomb ! ((player + 1) mod 2))[e := n]] ! ((player + 1) mod 2) ! position)
           (ship_gates shipPos player position))
       = concat (replicate (bomb ! ((player + 1) mod 2) ! position) (ship_gates shipPos player position))"
  proof (cases "position = e")
    case True
    then show ?thesis by (simp add: ship_gates_empty [OF assms(1,2)])
  next
    case False
    then show ?thesis using assms(3) by simp
  qed
qed simp

lemma well_shaped_update:
  assumes "well_shaped bomb shipPos" and "attacker < 2"
  shows "well_shaped (bomb[attacker := (bomb ! attacker)[position := n]]) shipPos"
proof -
  have "length ((bomb ! attacker)[position := n]) = 5"
    using assms by (simp add: well_shaped_def ledger_shaped_def)
  then have "\<forall>row \<in> set (bomb[attacker := (bomb ! attacker)[position := n]]). length row = 5"
    using assms(1) set_update_subset_insert [of bomb attacker "(bomb ! attacker)[position := n]"]
    by (auto simp add: well_shaped_def ledger_shaped_def)
  then show ?thesis
    using assms(1) by (simp add: well_shaped_def ledger_shaped_def)
qed

text \<open>
  Claim C6. Attacks recorded on a position that holds no ship of the defending player
  apply no rotation to any qubit: with any count \<open>n\<close> at such a position the loop builds
  the very circuit it builds with count 0 there, so every ship of that player has the same
  success probability as if the position had never been attacked.
\<close>

theorem empty_position_no_rotation:
  assumes "well_shaped bomb shipPos" and "player < 2"
    and "e \<notin> set (shipPos ! player)"
  shows "\<exists>qc. build_circuit (bomb[(player + 1) mod 2 := (bomb ! ((player + 1) mod 2))[e := n]]) shipPos player = Inr qc \<and>
              build_circuit (bomb[(player + 1) mod 2 := (bomb ! ((player + 1) mod 2))[e := 0]]) shipPos player = Inr qc"
proof -
  have opp: "(player + 1) mod 2 < 2" by simp
  have len: "length (shipPos ! player) = 3" "(player + 1) mod 2 < length bomb"
    using assms(1,2) by (simp_all add: well_shaped_def ledger_shaped_def)
  have built: "build_circuit (bomb[(player + 1) mod 2 := (bomb ! ((player + 1) mod 2))[e := k]]) shipPos player
      = Inr (measure_all (grid_gates (bomb[(player + 1) mod 2 := (bomb ! ((player + 1) mod 2))[e := k]])
               shipPos player [0..<5]))" for k
    by (rule build_circuit_gates [OF well_shaped_update [OF assms(1) opp] assms(2)])
  have same: "grid_gates (bomb[(player + 1) mod 2 := (bomb ! ((player + 1) mod 2))[e := k]]) shipPos player [0..<5]
      = grid_gates bomb shipPos player [0..<5]" for k
    by (rule grid_gates_empty_position [OF len(1) assms(3) len(2)])
  show ?thesis
    using built [of n] built [of 0] same [of n] same [of 0] by simp
qed

theorem empty_position_no_rotation_witness:
  "well_shaped [[1, 0, 1, 0, 0], [0, 2, 0, 0, 1]] [[0, 1, 2], [2, 3, 4]] \<and> (0::nat) < 2 \<and>
   (4::nat) \<notin> set ([[0, 1, 2], [2, 3, 4]] ! 0) \<and>
   (\<exists>qc. build_circuit [[1, 0, 1, 0, 0], [0, 2, 0, 0, 6]] [[0, 1, 2], [2, 3, 4]] 0 = Inr qc \<and>
         build_circuit [[1, 0, 1, 0, 0], [0, 2, 0, 0, 0]] [[0, 1, 2], [2, 3, 4]] 0 = Inr qc)"
proof -
  have h: "well_shaped [[1, 0, 1, 0, 0], [0, 2, 0, 0, 1]] [[0, 1, 2], [2, 3, 4]]"
    by (simp add: well_shaped_def ledger_shaped_def)
  show ?thesis
    using h empty_position_no_rotation [OF h, of 0 4 6] by simp
qed


subsection \<open>The destruction probability as a function of the attack count\<close>

lemma destruction_probability_ship:
  assumes "well_shaped bomb shipPos" and "player < 2" and "ship < 3"
    and "distinct (shipPos ! player)" and "shipPos ! player ! ship < 5"
  shows "destruction_probability bomb shipPos player (shipPos ! player ! ship)
           = Inr ((sin (real (attacks_on bomb ((player + 1) mod 2) (shipPos ! player ! ship))
                          * (frac_ship ship * pi) / 2))\<^sup>2)"
proof -
  from build_circuit_p_one [OF assms] obtain qc where
    "build_circuit bomb shipPos player = Inr qc"
    "rotation_on qc (shipPos ! player ! ship)
       = real (bomb ! ((player + 1) mod 2) ! (shipPos ! player ! ship)) * (frac_ship ship * pi)"
    "p_one qc (shipPos ! player ! ship) = (sin (rotation_on qc (shipPos ! player ! ship) / 2))\<^sup>2"
    by blast
  then show ?thesis
    by (simp add: destruction_probability_def attacks_on_def)
qed

lemma sin_squared_mono:
  assumes "0 \<le> a" and "a \<le> b" and "b \<le> pi / 2"
  shows "(sin a)\<^sup>2 \<le> (sin b)\<^sup>2"
proof -
  have "sin a \<le> sin b"
    using assms by (intro sin_monotone_2pi_le) simp_all
  moreover have "0 \<le> sin a"
    using assms by (intro sin_ge_zero) simp_all
  ultimately show ?thesis by (rule power_mono)
qed

lemma half_angle_bounds:
  assumes "k \<le> k'" and "k' \<le> ship + 1"
  shows "0 \<le> real k * (frac_ship ship * pi) / 2"
    and "real k * (frac_ship ship * pi) / 2 \<le> real k' * (frac_ship ship * pi) / 2"
    and "real k' * (frac_ship ship * pi) / 2 \<le> pi / 2"
proof -
  have f: "0 < frac_ship ship" by (simp add: frac_ship_def add_pos_nonneg)
  show "0 \<le> real k * (frac_ship ship * pi) / 2" using f by simp
  show "real k * (frac_ship ship * pi) / 2 \<le> real k' * (frac_ship ship * pi) / 2"
    using f assms(1) by (simp add: mult_right_mono)
  have "real k' * frac_ship ship \<le> 1"
    using assms(2) by (simp add: frac_ship_def field_simps)
  then have "real k' * frac_ship ship * pi \<le> 1 * pi"
    by (intro mult_right_mono) simp_all
  then show "real k' * (frac_ship ship * pi) / 2 \<le> pi / 2" by (simp add: mult.assoc)
qed

lemma full_rotation: "real (ship + 1) * (frac_ship ship * pi) / 2 = pi / 2"
  by (simp add: frac_ship_def field_simps)


text \<open>
  Claim C2, as amended. For every ship (order index \<open>ship + 1\<close> in 1, 2, 3), the destruction
  probability \<open>sin\<^sup>2 (rotation / 2)\<close> is non-decreasing as the attack count on the ship's
  position increases, as long as the count does not exceed the order index (the rotation
  does not exceed \<open>pi\<close>).
\<close>

theorem probability_monotone_up_to_full_flip:
  assumes "well_shaped bomb shipPos" and "well_shaped bomb' shipPos"
    and "player < 2" and "ship < 3"
    and "distinct (shipPos ! player)" and "shipPos ! player ! ship < 5"
    and "attacks_on bomb ((player + 1) mod 2) (shipPos ! player ! ship)
           \<le> attacks_on bomb' ((player + 1) mod 2) (shipPos ! player ! ship)"
    and "attacks_on bomb' ((player + 1) mod 2) (shipPos ! player ! ship) \<le> ship + 1"
  shows "\<exists>p p'. destruction_probability bomb shipPos player (shipPos ! player ! ship) = Inr p \<and>
                destruction_probability bomb' shipPos player (shipPos ! player ! ship) = Inr p' \<and>
                p \<le> p'"
proof -
  let ?k = "attacks_on bomb ((player + 1) mod 2) (shipPos ! player ! ship)"
  let ?k' = "attacks_on bomb' ((player + 1) mod 2) (shipPos ! player ! ship)"
  have "(sin (real ?k * (frac_ship ship * pi) / 2))\<^sup>2 \<le> (sin (real ?k' * (frac_ship ship * pi) / 2))\<^sup>2"
    using half_angle_bounds [OF assms(7,8)] by (rule sin_squared_mono)
  then show ?thesis
    using destruction_probability_ship [OF assms(1,3-6)] destruction_probability_ship [OF assms(2,3-6)]
    by blast
qed

theorem probability_monotone_up_to_full_flip_witness:
  "well_shaped [[0, 0, 0, 0, 0], [0, 0, 1, 0, 0]] [[0, 1, 2], [2, 3, 4]] \<and>
   well_shaped [[0, 0, 0, 0, 0], [0, 0, 3, 0, 0]] [[0, 1, 2], [2, 3, 4]] \<and>
   (0::nat) < 2 \<and> (2::nat) < 3 \<and> distinct ([[0, 1, 2], [2, 3, 4]] ! 0 :: nat list) \<and>
   ([[0, 1, 2], [2, 3, 4]] ! 0 ! 2 :: nat) < 5 \<and>
   attacks_on [[0, 0, 0, 0, 0], [0, 0, 1, 0, 0]] ((0 + 1) mod 2) 2
     \<le> attacks_on [[0, 0, 0, 0, 0], [0, 0, 3, 0, 0]] ((0 + 1) mod 2) 2 \<and>
   attacks_on [[0, 0, 0, 0, 0], [0, 0, 3, 0, 0]] ((0 + 1) mod 2) 2 \<le> 2 + 1 \<and>
   (\<exists>p p'. destruction_probability [[0, 0, 0, 0, 0], [0, 0, 1, 0, 0]] [[0, 1, 2], [2, 3, 4]] 0 2 = Inr p \<and>
           destruction_probability [[0, 0, 0, 0, 0], [0, 0, 3, 0, 0]] [[0, 1, 2], [2, 3, 4]] 0 2 = Inr p' \<and>
           p \<le> p')"
proof -
  have h: "well_shaped [[0, 0, 0, 0, 0], [0, 0, 1, 0, 0]] [[0, 1, 2], [2, 3, 4]]"
    and h': "well_shaped [[0, 0, 0, 0, 0], [0, 0, 3, 0, 0]] [[0, 1, 2], [2, 3, 4]]"
    by (simp_all add: well_shaped_def ledger_shaped_def)
  show ?thesis
    using h h' probability_monotone_up_to_full_flip [OF h h', of 0 2]
    by (simp add: attacks_on_def)
qed

text \<open>
  Claim C2 as stated fails: the rotation is not capped at \<open>pi\<close>. The first ship of the
  first player, at position 0, has destruction probability 1 after one attack and 0 after
  two.
\<close>

theorem probability_drops_past_full_flip:
  "destruction_probability [[0, 0, 0, 0, 0], [1, 0, 0, 0, 0]] [[0, 1, 2], [2, 3, 4]] 0 0 = Inr 1 \<and>
   destruction_probability [[0, 0, 0, 0, 0], [2, 0, 0, 0, 0]] [[0, 1, 2], [2, 3, 4]] 0 0 = Inr 0"
proof -
  have h: "well_shaped [[0, 0, 0, 0, 0], [1, 0, 0, 0, 0]] [[0, 1, 2], [2, 3, 4]]"
    and h': "well_shaped [[0, 0, 0, 0, 0], [2, 0, 0, 0, 0]] [[0, 1, 2], [2, 3, 4]]"
    by (simp_all add: well_shaped_def ledger_shaped_def)
  show ?thesis
    using destruction_probability_ship [OF h, of 0 0] destruction_probability_ship [OF h', of 0 0]
    by (simp add: attacks_on_def frac_ship_def)
qed

text \<open>
  Claim C4 as stated fails: the second ship of the first player, at position 1, has
  destruction probability 1 after two attacks on its position (rotation \<open>pi\<close>) and 0 after
  four (rotation \<open>2 pi\<close>).
\<close>

theorem destroyed_ship_restored_by_further_attacks:
  "destruction_probability [[0, 0, 0, 0, 0], [0, 2, 0, 0, 0]] [[0, 1, 2], [2, 3, 4]] 0 1 = Inr 1 \<and>
   destruction_probability [[0, 0, 0, 0, 0], [0, 4, 0, 0, 0]] [[0, 1, 2], [2, 3, 4]] 0 1 = Inr 0"
proof -
  have h: "well_shaped [[0, 0, 0, 0, 0], [0, 2, 0, 0, 0]] [[0, 1, 2], [2, 3, 4]]"
    and h': "well_shaped [[0, 0, 0, 0, 0], [0, 4, 0, 0, 0]] [[0, 1, 2], [2, 3, 4]]"
    by (simp_all add: well_shaped_def ledger_shaped_def)
  show ?thesis
    using destruction_probability_ship [OF h, of 0 1] destruction_probability_ship [OF h', of 0 1]
    by (simp add: attacks_on_def frac_ship_def)
qed

text \<open>
  Claim C5 as stated fails at attack count 2: the first ship (position 0) has rotation
  \<open>2 pi\<close> and destruction probability 0, the third ship (position 2) has rotation
  \<open>2 pi / 3\<close> and destruction probability \<open>3/4\<close>.
\<close>

theorem first_ship_below_third_ship:
  "destruction_probability [[0, 0, 0, 0, 0], [2, 0, 2, 0, 0]] [[0, 1, 2], [2, 3, 4]] 0 0 = Inr 0 \<and>
   destruction_probability [[0, 0, 0, 0, 0], [2, 0, 2, 0, 0]] [[0, 1, 2], [2, 3, 4]] 0 2 = Inr (3 / 4)"
proof -
  have h: "well_shaped [[0, 0, 0, 0, 0], [2, 0, 2, 0, 0]] [[0, 1, 2], [2, 3, 4]]"
    by (simp add: well_shaped_def ledger_shaped_def)
  have "(sin (pi / 3))\<^sup>2 = 3 / 4"
    by (simp add: sin_60 power_divide)
  then show ?thesis
    using destruction_probability_ship [OF h, of 0 0] destruction_probability_ship [OF h, of 0 2]
    by (simp add: attacks_on_def frac_ship_def)
qed


lemma sin_squared_odd: "odd k \<Longrightarrow> (sin (real k * pi / 2))\<^sup>2 = 1"
proof -
  assume "odd k"
  then have "cos (real k * pi / 2) = 0"
    by (subst cos_zero_iff) auto
  then show ?thesis by (simp add: sin_squared_eq)
qed

lemma sin_squared_even: "even k \<Longrightarrow> (sin (real k * pi / 2))\<^sup>2 = 0"
proof -
  assume "even k"
  then have "sin (real k * pi / 2) = 0"
    by (subst sin_zero_iff) auto
  then show ?thesis by simp
qed

lemma sin_squared_sixth_less_one:
  assumes "\<not> 3 dvd k"
  shows "(sin (real k * pi / 6))\<^sup>2 < 1"
proof -
  have "cos (real k * pi / 6) \<noteq> 0"
  proof
    assume "cos (real k * pi / 6) = 0"
    then consider n where "odd n" "real k * pi / 6 = real n * (pi / 2)"
      | n where "odd n" "real k * pi / 6 = - (real n * (pi / 2))"
      by (auto simp add: cos_zero_iff)
    then show False
    proof cases
      case 1
      then have "real k = real (3 * n)" by (simp add: field_simps)
      then have "k = 3 * n" by (simp only: of_nat_eq_iff)
      then show False using assms by simp
    next
      case 2
      have "0 \<le> real k * pi / 6" by simp
      then have "real n * (pi / 2) \<le> 0" using 2(2) by linarith
      moreover have "0 < pi / 2" by simp
      ultimately have "real n \<le> 0" by (simp only: mult_le_0_iff) linarith
      then show False using 2(1) by (cases n) simp_all
    qed
  qed
  then have "0 < (cos (real k * pi / 6))\<^sup>2" by simp
  then show ?thesis by (simp add: sin_squared_eq)
qed

lemma sin_squared_sixth_one:
  assumes "odd k" and "3 dvd k"
  shows "(sin (real k * pi / 6))\<^sup>2 = 1"
proof -
  from assms(2) obtain m where k: "k = 3 * m" by (auto simp add: dvd_def)
  then have "odd m" using assms(1) by simp
  then have "(sin (real m * pi / 2))\<^sup>2 = 1" by (rule sin_squared_odd)
  moreover have "real k * pi / 6 = real m * pi / 2" using k by simp
  ultimately show ?thesis by (simp only:)
qed

lemma first_above_third_iff:
  "(sin (real k * pi / 6))\<^sup>2 < (sin (real k * pi / 2))\<^sup>2 \<longleftrightarrow> odd k \<and> \<not> 3 dvd k"
proof (cases "odd k")
  case True
  show ?thesis
  proof (cases "3 dvd k")
    case dvd: True
    show ?thesis
      using True dvd by (simp add: sin_squared_odd sin_squared_sixth_one)
  next
    case False
    show ?thesis
      using True False by (simp add: sin_squared_odd sin_squared_sixth_less_one)
  qed
next
  case False
  then show ?thesis by (simp add: sin_squared_even)
qed

text \<open>
  Claim C5, as amended. For every equal attack count \<open>k\<close>, the ship with order index 1 has
  rotation exactly 3 times that of the ship with order index 3, and its destruction
  probability is strictly higher exactly when \<open>k\<close> is odd and not a multiple of 3.
\<close>

theorem first_ship_rotates_three_times_third:
  assumes "well_shaped bomb shipPos" and "player < 2" and "distinct (shipPos ! player)"
    and "shipPos ! player ! 0 < 5" and "shipPos ! player ! 2 < 5"
    and "attacks_on bomb ((player + 1) mod 2) (shipPos ! player ! 0) = k"
    and "attacks_on bomb ((player + 1) mod 2) (shipPos ! player ! 2) = k"
  shows "\<exists>qc. build_circuit bomb shipPos player = Inr qc \<and>
           rotation_on qc (shipPos ! player ! 0) = 3 * rotation_on qc (shipPos ! player ! 2) \<and>
           (p_one qc (shipPos ! player ! 2) < p_one qc (shipPos ! player ! 0)
              \<longleftrightarrow> odd k \<and> \<not> 3 dvd k)"
proof -
  from build_circuit_p_one [OF assms(1,2) _ assms(3,4)] obtain qc where
    qc: "build_circuit bomb shipPos player = Inr qc"
    and r0: "rotation_on qc (shipPos ! player ! 0) = real k * pi"
    and p0: "p_one qc (shipPos ! player ! 0) = (sin (rotation_on qc (shipPos ! player ! 0) / 2))\<^sup>2"
    using assms(6) by (auto simp add: attacks_on_def frac_ship_def)
  from build_circuit_p_one [OF assms(1,2) _ assms(3,5)] qc have
    r2: "rotation_on qc (shipPos ! player ! 2) = real k * pi / 3"
    and p2: "p_one qc (shipPos ! player ! 2) = (sin (rotation_on qc (shipPos ! player ! 2) / 2))\<^sup>2"
    using assms(7) by (auto simp add: attacks_on_def frac_ship_def)
  have "p_one qc (shipPos ! player ! 2) < p_one qc (shipPos ! player ! 0) \<longleftrightarrow> odd k \<and> \<not> 3 dvd k"
    using first_above_third_iff [of k] by (simp add: p0 p2 r0 r2)
  then show ?thesis
    using qc r0 r2 by simp
qed

theorem first_ship_rotates_three_times_third_witness:
  "well_shaped [[0, 0, 0, 0, 0], [5, 0, 5, 0, 0]] [[0, 1, 2], [2, 3, 4]] \<and> (0::nat) < 2 \<and>
   distinct ([[0, 1, 2], [2, 3, 4]] ! 0 :: nat list) \<and>
   ([[0, 1, 2], [2, 3, 4]] ! 0 ! 0 :: nat) < 5 \<and> ([[0, 1, 2], [2, 3, 4]] ! 0 ! 2 :: nat) < 5 \<and>
   attacks_on [[0, 0, 0, 0, 0], [5, 0, 5, 0, 0]] ((0 + 1) mod 2) ([[0, 1, 2], [2, 3, 4]] ! 0 ! 0) = 5 \<and>
   attacks_on [[0, 0, 0, 0, 0], [5, 0, 5, 0, 0]] ((0 + 1) mod 2) ([[0, 1, 2], [2, 3, 4]] ! 0 ! 2) = 5 \<and>
   odd (5::nat) \<and> \<not> 3 dvd (5::nat) \<and>
   (\<exists>qc. build_circuit [[0, 0, 0, 0, 0], [5, 0, 5, 0, 0]] [[0, 1, 2], [2, 3, 4]] 0 = Inr qc \<and>
         rotation_on qc 0 = 3 * rotation_on qc 2 \<and> p_one qc 2 < p_one qc 0)"
proof -
  have h: "well_shaped [[0, 0, 0, 0, 0], [5, 0, 5, 0, 0]] [[0, 1, 2], [2, 3, 4]]"
    by (simp add: well_shaped_def ledger_shaped_def)
  have n: "\<not> 3 dvd (5::nat)" by presburger
  show ?thesis
    using h n first_ship_rotates_three_times_third [OF h, of 0 5]
    by (auto simp add: attacks_on_def)
qed

text \<open>
  Claim C4, as amended. Once the attack count on a ship's position equals its order index
  (accumulated rotation \<open>pi\<close>), its destruction probability is exactly 1, and it is exactly
  1 in every later ledger in which the count on that position is still the same, whatever
  has been recorded on all other positions and by the other player.
\<close>

theorem full_flip_stays_while_count_stays:
  assumes "well_shaped bomb shipPos" and "well_shaped bomb' shipPos"
    and "player < 2" and "ship < 3"
    and "distinct (shipPos ! player)" and "shipPos ! player ! ship < 5"
    and "attacks_on bomb ((player + 1) mod 2) (shipPos ! player ! ship) = ship + 1"
    and "attacks_on bomb' ((player + 1) mod 2) (shipPos ! player ! ship)
           = attacks_on bomb ((player + 1) mod 2) (shipPos ! player ! ship)"
  shows "destruction_probability bomb shipPos player (shipPos ! player ! ship) = Inr 1 \<and>
         destruction_probability bomb' shipPos player (shipPos ! player ! ship) = Inr 1"
proof -
  have "(sin (real (ship + 1) * (frac_ship ship * pi) / 2))\<^sup>2 = 1"
    by (simp only: full_rotation) simp
  then show ?thesis
    using destruction_probability_ship [OF assms(1,3-6)] destruction_probability_ship [OF assms(2,3-6)]
    by (simp only: assms(7,8))
qed

theorem full_flip_stays_while_count_stays_witness:
  "well_shaped [[0, 0, 0, 0, 0], [0, 2, 0, 0, 0]] [[0, 1, 2], [2, 3, 4]] \<and>
   well_shaped [[3, 1, 4, 1, 5], [9, 2, 6, 5, 3]] [[0, 1, 2], [2, 3, 4]] \<and>
   (0::nat) < 2 \<and> (1::nat) < 3 \<and> distinct ([[0, 1, 2], [2, 3, 4]] ! 0 :: nat list) \<and>
   ([[0, 1, 2], [2, 3, 4]] ! 0 ! 1 :: nat) < 5 \<and>
   attacks_on [[0, 0, 0, 0, 0], [0, 2, 0, 0, 0]] ((0 + 1) mod 2) ([[0, 1, 2], [2, 3, 4]] ! 0 ! 1) = 1 + 1 \<and>
   attacks_on [[3, 1, 4, 1, 5], [9, 2, 6, 5, 3]] ((0 + 1) mod 2) ([[0, 1, 2], [2, 3, 4]] ! 0 ! 1)
     = attacks_on [[0, 0, 0, 0, 0], [0, 2, 0, 0, 0]] ((0 + 1) mod 2) ([[0, 1, 2], [2, 3, 4]] ! 0 ! 1) \<and>
   destruction_probability [[0, 0, 0, 0, 0], [0, 2, 0, 0, 0]] [[0, 1, 2], [2, 3, 4]] 0 1 = Inr 1 \<and>
   destruction_probability [[3, 1, 4, 1, 5], [9, 2, 6, 5, 3]] [[0, 1, 2], [2, 3, 4]] 0 1 = Inr 1"
proof -
  have h: "well_shaped [[0, 0, 0, 0, 0], [0, 2, 0, 0, 0]] [[0, 1, 2], [2, 3, 4]]"
    and h': "well_shaped [[3, 1, 4, 1, 5], [9, 2, 6, 5, 3]] [[0, 1, 2], [2, 3, 4]]"
    by (simp_all add: well_shaped_def ledger_shaped_def)
  show ?thesis
    using h h' full_flip_stays_while_count_stays [OF h h', of 0 1]
    by (simp add: attacks_on_def)
qed


subsection \<open>Samples and reports\<close>

lemma sample_prob_certain:
  "0 < sample_prob 1 bs \<Longrightarrow> successes bs = length bs"
  by (induction bs) (simp_all add: sample_prob_def successes_def split: if_splits)

lemma damage_percent_all:
  assumes "bs \<noteq> []" and "successes bs = length bs"
  shows "damage_percent bs = 100"
proof -
  have "0 < length bs" using assms(1) by simp
  then have "(200 * length bs + length bs) div (2 * length bs) = 100"
    by simp
  then show ?thesis by (simp add: damage_percent_def assms(2))
qed

lemma ship_position_in_row:
  assumes "well_shaped bomb shipPos" and "player < 2" and "ship < 3"
  shows "shipPos ! player ! ship \<in> set (shipPos ! player)"
  using assms by (simp add: well_shaped_def)

text \<open>
  Claim C3. When the attack count on a ship's position equals the ship's order index
  (\<open>ship + 1\<close>), and the position holds that one ship, the probability of a success per
  sample is exactly 1 (the rotation is \<open>pi\<close>); so for every number \<open>N \<ge> 1\<close> of samples,
  every run of samples that can be drawn is reported as 100 percent damage and the ship
  as destroyed.
\<close>

theorem full_flip_destroys_for_every_sample:
  assumes "well_shaped bomb shipPos" and "player < 2" and "ship < 3"
    and "distinct (shipPos ! player)" and "shipPos ! player ! ship < 5"
    and "attacks_on bomb ((player + 1) mod 2) (shipPos ! player ! ship) = ship + 1"
  shows "\<exists>p. destruction_probability bomb shipPos player (shipPos ! player ! ship) = Inr p \<and> p = 1 \<and>
           (\<forall>bs. bs \<noteq> [] \<longrightarrow> 0 < sample_prob p bs \<longrightarrow>
              damage_percent bs = 100 \<and> destroyed bs \<and>
              report_position shipPos player (shipPos ! player ! ship) bs = Percent 100)"
proof -
  have "(sin (real (ship + 1) * (frac_ship ship * pi) / 2))\<^sup>2 = 1"
    by (simp only: full_rotation) simp
  then have p: "destruction_probability bomb shipPos player (shipPos ! player ! ship) = Inr 1"
    using destruction_probability_ship [OF assms(1-5)] by (simp only: assms(6))
  have "damage_percent bs = 100 \<and> destroyed bs \<and>
      report_position shipPos player (shipPos ! player ! ship) bs = Percent 100"
    if "bs \<noteq> []" and "0 < sample_prob 1 bs" for bs
  proof -
    have s: "successes bs = length bs"
      using that(2) by (rule sample_prob_certain)
    have d: "damage_percent bs = 100"
      using that(1) s by (rule damage_percent_all)
    show ?thesis
      using ship_position_in_row [OF assms(1-3)] that(1) s d
      by (simp add: destroyed_def report_position_def)
  qed
  then show ?thesis using p by simp
qed

theorem full_flip_destroys_for_every_sample_witness:
  "well_shaped [[0, 0, 0, 0, 0], [0, 0, 3, 0, 0]] [[0, 1, 2], [2, 3, 4]] \<and> (0::nat) < 2 \<and> (2::nat) < 3 \<and>
   distinct ([[0, 1, 2], [2, 3, 4]] ! 0 :: nat list) \<and> ([[0, 1, 2], [2, 3, 4]] ! 0 ! 2 :: nat) < 5 \<and>
   attacks_on [[0, 0, 0, 0, 0], [0, 0, 3, 0, 0]] ((0 + 1) mod 2) ([[0, 1, 2], [2, 3, 4]] ! 0 ! 2) = 2 + 1 \<and>
   [True, True] \<noteq> [] \<and> 0 < sample_prob 1 [True, True] \<and>
   destruction_probability [[0, 0, 0, 0, 0], [0, 0, 3, 0, 0]] [[0, 1, 2], [2, 3, 4]] 0 2 = Inr 1 \<and>
   damage_percent [True, True] = 100 \<and> destroyed [True, True] \<and>
   report_position [[0, 1, 2], [2, 3, 4]] 0 2 [True, True] = Percent 100"
proof -
  have h: "well_shaped [[0, 0, 0, 0, 0], [0, 0, 3, 0, 0]] [[0, 1, 2], [2, 3, 4]]"
    by (simp add: well_shaped_def ledger_shaped_def)
  have s: "0 < sample_prob 1 [True, True]"
    by (simp add: sample_prob_def)
  show ?thesis
    using h s full_flip_destroys_for_every_sample [OF h, of 0 2]
    by (auto simp add: attacks_on_def)
qed

subsection \<open>Positions whose samples cannot read 1\<close>

lemma rotation_on_grid_gates_position:
  assumes "q < 5"
  shows "rotation_on (grid_gates bomb shipPos player [0..<5]) q
           = real (bomb ! ((player + 1) mod 2) ! q) * rotation_on (ship_gates shipPos player q) q"
proof -
  let ?x = "real (bomb ! ((player + 1) mod 2) ! q) * rotation_on (ship_gates shipPos player q) q"
  have "rotation_on (grid_gates bomb shipPos player [0..<5]) q
          = (\<Sum>p\<leftarrow>[0..<5]. real (bomb ! ((player + 1) mod 2) ! p)
                 * rotation_on (ship_gates shipPos player p) q)"
    by (simp add: grid_gates_def rotation_on_concat_map rotation_on_replicate)
  also have "\<dots> = (\<Sum>p\<leftarrow>[0..<5]. if p = q then ?x else 0)"
    by (rule arg_cong [where f = sum_list], rule map_cong)
      (simp_all add: rotation_on_ship_gates_other)
  also have "\<dots> = ?x"
    using assms by (rule sum_list_single)
  finally show ?thesis .
qed

lemma destruction_probability_unattacked:
  assumes "well_shaped bomb shipPos" and "player < 2" and "position < 5"
    and "attacks_on bomb ((player + 1) mod 2) position = 0"
  shows "destruction_probability bomb shipPos player position = Inr 0"
proof -
  let ?gs = "grid_gates bomb shipPos player [0..<5]"
  have "build_circuit bomb shipPos player = Inr (measure_all ?gs)"
    using assms(1,2) by (rule build_circuit_gates)
  moreover have "rotation_on ?gs position = 0"
    using assms(4) by (simp add: rotation_on_grid_gates_position [OF assms(3)] attacks_on_def)
  then have "p_one (measure_all ?gs) position = 0"
    using assms(3) by (simp add: p_one_measure_all y_only_grid_gates)
  ultimately show ?thesis
    by (simp add: destruction_probability_def)
qed

lemma sample_prob_impossible:
  "0 < sample_prob 0 bs \<Longrightarrow> successes bs = 0"
  by (induction bs) (simp_all add: sample_prob_def successes_def split: if_splits)

lemma sample_prob_replicate_False: "sample_prob 0 (replicate n False) = 1"
  by (induction n) (simp_all add: sample_prob_def)

lemma successes_replicate_False: "successes (replicate n False) = 0"
  by (simp add: successes_def)

lemma sin_squared_zero_iff:
  "(sin (real k * (frac_ship ship * pi) / 2))\<^sup>2 = 0 \<longleftrightarrow> 2 * (ship + 1) dvd k"
proof
  assume "(sin (real k * (frac_ship ship * pi) / 2))\<^sup>2 = 0"
  then have "sin (real k * (frac_ship ship * pi) / 2) = 0" by simp
  then consider n where "even n" "real k * (frac_ship ship * pi) / 2 = real n * (pi / 2)"
    | n where "even n" "real k * (frac_ship ship * pi) / 2 = - (real n * (pi / 2))"
    by (auto simp add: sin_zero_iff)
  then show "2 * (ship + 1) dvd k"
  proof cases
    case 1
    from 1(1) obtain j where n: "n = 2 * j" by (auto elim: evenE)
    have "real k * frac_ship ship = real n"
      using 1(2) by simp
    then have "real k = real (n * (ship + 1))"
      by (simp add: frac_ship_def field_simps)
    then have "k = n * (ship + 1)" by (simp only: of_nat_eq_iff)
    then have "k = 2 * (ship + 1) * j" using n by (simp only: mult_ac)
    then show ?thesis by (rule dvdI)
  next
    case 2
    have f: "0 < frac_ship ship" by (simp add: frac_ship_def add_pos_nonneg)
    have "0 \<le> real k * (frac_ship ship * pi) / 2" using f by simp
    moreover have "- (real n * (pi / 2)) \<le> 0" by simp
    ultimately have "real k * (frac_ship ship * pi) / 2 = 0" using 2(2) by linarith
    then have "k = 0" using f by simp
    then show ?thesis by simp
  qed
next
  assume "2 * (ship + 1) dvd k"
  then obtain j where k: "k = 2 * (ship + 1) * j" by (auto simp add: dvd_def)
  have "real k * (frac_ship ship * pi) / 2 = real (2 * j) * (pi / 2)"
    by (simp add: k frac_ship_def field_simps)
  moreover have "sin (real (2 * j) * (pi / 2)) = 0"
    by (subst sin_zero_iff) (metis even_mult_iff even_numeral)
  ultimately show "(sin (real k * (frac_ship ship * pi) / 2))\<^sup>2 = 0"
    by (simp only: zero_power2)
qed


lemma destruction_probability_no_ship:
  assumes "well_shaped bomb shipPos" and "player < 2" and "position < 5"
    and "position \<notin> set (shipPos ! player)"
  shows "destruction_probability bomb shipPos player position = Inr 0"
proof -
  let ?gs = "grid_gates bomb shipPos player [0..<5]"
  have len: "length (shipPos ! player) = 3"
    using assms(1,2) by (simp add: well_shaped_def)
  have "build_circuit bomb shipPos player = Inr (measure_all ?gs)"
    using assms(1,2) by (rule build_circuit_gates)
  moreover have "rotation_on ?gs position = 0"
    by (simp add: rotation_on_grid_gates_position [OF assms(3)] ship_gates_empty [OF len assms(4)])
  then have "p_one (measure_all ?gs) position = 0"
    using assms(3) by (simp add: p_one_measure_all y_only_grid_gates)
  ultimately show ?thesis
    by (simp add: destruction_probability_def)
qed

lemma destruction_probability_returns:
  assumes "well_shaped bomb shipPos" and "player < 2"
  shows "\<exists>p. destruction_probability bomb shipPos player position = Inr p"
  using build_circuit_gates [OF assms] by (simp add: destruction_probability_def)

text \<open>
  Claim C7, as amended. A position on which the attacking player has recorded zero attacks
  is always reported as unknown, never as a damage percentage, in particular never as
  0 percent: its qubit is not rotated, the probability of a success is 0, and every run of
  samples that can be drawn is shown as unknown. A position with an attack count above 0
  gets the same full draw of \<open>N\<close> samples, but a percentage only if it holds a ship and a
  sample reads 1: a position without a ship has success probability 0 whatever its count,
  a ship has success probability 0 exactly when the count is a multiple of twice its order
  index (the rotation a multiple of \<open>2 pi\<close>), and with probability 0 the report is
  unknown; a ship position with a success among its samples is reported as the percentage
  of the full draw.
\<close>

theorem never_attacked_position_unknown:
  assumes "well_shaped bomb shipPos" and "player < 2" and "position < 5"
  shows "\<exists>p. destruction_probability bomb shipPos player position = Inr p \<and>
           (attacks_on bomb ((player + 1) mod 2) position = 0 \<longrightarrow> p = 0) \<and>
           (position \<notin> set (shipPos ! player) \<longrightarrow> p = 0) \<and>
           (\<forall>ship<3. distinct (shipPos ! player) \<longrightarrow> position = shipPos ! player ! ship \<longrightarrow>
              (p = 0 \<longleftrightarrow> 2 * (ship + 1) dvd attacks_on bomb ((player + 1) mod 2) position)) \<and>
           (p = 0 \<longrightarrow>
              (\<forall>bs. 0 < sample_prob p bs \<longrightarrow>
                 report_position shipPos player position bs = Unknown \<and>
                 (\<forall>percent. report_position shipPos player position bs \<noteq> Percent percent))) \<and>
           (\<forall>bs. position \<in> set (shipPos ! player) \<longrightarrow> 0 < successes bs \<longrightarrow>
              report_position shipPos player position bs = Percent (damage_percent bs))"
proof -
  from destruction_probability_returns [OF assms(1,2)] obtain p where
    p: "destruction_probability bomb shipPos player position = Inr p" by blast
  have unattacked: "p = 0" if "attacks_on bomb ((player + 1) mod 2) position = 0"
    using destruction_probability_unattacked [OF assms that] p by simp
  have no_ship: "p = 0" if "position \<notin> set (shipPos ! player)"
    using destruction_probability_no_ship [OF assms that] p by simp
  have ship: "p = 0 \<longleftrightarrow> 2 * (ship + 1) dvd attacks_on bomb ((player + 1) mod 2) position"
    if "ship < 3" and "distinct (shipPos ! player)" and "position = shipPos ! player ! ship" for ship
  proof -
    have "shipPos ! player ! ship < 5" using assms(3) that(3) by simp
    from destruction_probability_ship [OF assms(1,2) that(1,2) this] p that(3)
    have "p = (sin (real (attacks_on bomb ((player + 1) mod 2) position)
                      * (frac_ship ship * pi) / 2))\<^sup>2"
      by simp
    then show ?thesis by (simp only: sin_squared_zero_iff)
  qed
  have unknown: "report_position shipPos player position bs = Unknown \<and>
      (\<forall>percent. report_position shipPos player position bs \<noteq> Percent percent)"
    if "p = 0" and "0 < sample_prob p bs" for bs
  proof -
    have "successes bs = 0" using that by (simp add: sample_prob_impossible)
    then show ?thesis by (simp add: report_position_def)
  qed
  have percent: "report_position shipPos player position bs = Percent (damage_percent bs)"
    if "position \<in> set (shipPos ! player)" and "0 < successes bs" for bs
    using that by (simp add: report_position_def)
  show ?thesis
  proof (intro exI [of _ p] conjI)
    show "destruction_probability bomb shipPos player position = Inr p" by (rule p)
    show "attacks_on bomb ((player + 1) mod 2) position = 0 \<longrightarrow> p = 0"
      using unattacked by (rule impI)
    show "position \<notin> set (shipPos ! player) \<longrightarrow> p = 0"
      using no_ship by (rule impI)
    show "\<forall>ship<3. distinct (shipPos ! player) \<longrightarrow> position = shipPos ! player ! ship \<longrightarrow>
        (p = 0 \<longleftrightarrow> 2 * (ship + 1) dvd attacks_on bomb ((player + 1) mod 2) position)"
      using ship by (intro allI impI)
    show "p = 0 \<longrightarrow>
        (\<forall>bs. 0 < sample_prob p bs \<longrightarrow>
           report_position shipPos player position bs = Unknown \<and>
           (\<forall>percent. report_position shipPos player position bs \<noteq> Percent percent))"
      using unknown by (intro allI impI)
    show "\<forall>bs. position \<in> set (shipPos ! player) \<longrightarrow> 0 < successes bs \<longrightarrow>
        report_position shipPos player position bs = Percent (damage_percent bs)"
      using percent by (intro allI impI)
  qed
qed


theorem never_attacked_position_unknown_witness:
  "well_shaped [[0, 0, 2, 0, 0], [0, 1, 0, 0, 1]] [[0, 1, 2], [2, 3, 4]] \<and> (0::nat) < 2 \<and>
   (0::nat) < 5 \<and> (1::nat) < 5 \<and> (4::nat) < 5 \<and>
   attacks_on [[0, 0, 2, 0, 0], [0, 1, 0, 0, 1]] ((0 + 1) mod 2) 0 = 0 \<and>
   destruction_probability [[0, 0, 2, 0, 0], [0, 1, 0, 0, 1]] [[0, 1, 2], [2, 3, 4]] 0 0 = Inr 0 \<and>
   0 < sample_prob 0 (replicate 1024 False) \<and>
   report_position [[0, 1, 2], [2, 3, 4]] 0 0 (replicate 1024 False) = Unknown \<and>
   (4::nat) \<notin> set ([[0, 1, 2], [2, 3, 4]] ! 0) \<and>
   destruction_probability [[0, 0, 2, 0, 0], [0, 1, 0, 0, 1]] [[0, 1, 2], [2, 3, 4]] 0 4 = Inr 0 \<and>
   report_position [[0, 1, 2], [2, 3, 4]] 0 4 (replicate 1024 False) = Unknown \<and>
   (1::nat) \<in> set ([[0, 1, 2], [2, 3, 4]] ! 0) \<and> 0 < successes [True, False] \<and>
   report_position [[0, 1, 2], [2, 3, 4]] 0 1 [True, False] = Percent (damage_percent [True, False])"
proof -
  have h: "well_shaped [[0, 0, 2, 0, 0], [0, 1, 0, 0, 1]] [[0, 1, 2], [2, 3, 4]]"
    by (simp add: well_shaped_def ledger_shaped_def)
  have a: "attacks_on [[0, 0, 2, 0, 0], [0, 1, 0, 0, 1]] ((0 + 1) mod 2) 0 = 0"
    by (simp add: attacks_on_def)
  have n: "(4::nat) \<notin> set ([[0, 1, 2], [2, 3, 4]] ! 0)"
    and m: "(1::nat) \<in> set ([[0, 1, 2], [2, 3, 4]] ! 0)"
    by simp_all
  have s: "0 < sample_prob 0 (replicate 1024 False)"
    by (simp add: sample_prob_replicate_False)
  have t: "0 < successes [True, False]"
    by (simp add: successes_def)
  from never_attacked_position_unknown [OF h, of 0 0] a s
  have first: "destruction_probability [[0, 0, 2, 0, 0], [0, 1, 0, 0, 1]] [[0, 1, 2], [2, 3, 4]] 0 0 = Inr 0"
    "report_position [[0, 1, 2], [2, 3, 4]] 0 0 (replicate 1024 False) = Unknown"
    by auto
  from never_attacked_position_unknown [OF h, of 0 4] n s
  have second: "destruction_probability [[0, 0, 2, 0, 0], [0, 1, 0, 0, 1]] [[0, 1, 2], [2, 3, 4]] 0 4 = Inr 0"
    "report_position [[0, 1, 2], [2, 3, 4]] 0 4 (replicate 1024 False) = Unknown"
    by auto
  from never_attacked_position_unknown [OF h, of 0 1] m t
  have third: "report_position [[0, 1, 2], [2, 3, 4]] 0 1 [True, False] = Percent (damage_percent [True, False])"
    by auto
  show ?thesis
    using h a n m s t first second third by simp
qed

text \<open>
  Claim C7 as stated fails at a ship that has been attacked. After two rounds in which the
  first player bombs position 2 twice, the first ship of the second player, at position 2,
  has attack count 2, rotation \<open>2 pi\<close> and success probability 0: the run of 1024 samples
  without a success is drawn with probability 1, and it is reported as unknown, not as a
  percentage.
\<close>

theorem attacked_ship_reported_unknown:
  "rounds initial_bomb [(2, 1), (2, 4)] = Inr [[0, 0, 2, 0, 0], [0, 1, 0, 0, 1]] \<and>
   ([[0, 1, 2], [2, 3, 4]] ! 1 ! 0 :: nat) = 2 \<and>
   0 < attacks_on [[0, 0, 2, 0, 0], [0, 1, 0, 0, 1]] ((1 + 1) mod 2) 2 \<and>
   destruction_probability [[0, 0, 2, 0, 0], [0, 1, 0, 0, 1]] [[0, 1, 2], [2, 3, 4]] 1 2 = Inr 0 \<and>
   sample_prob 0 (replicate 1024 False) = 1 \<and>
   report_position [[0, 1, 2], [2, 3, 4]] 1 2 (replicate 1024 False) = Unknown"
proof -
  have h: "well_shaped [[0, 0, 2, 0, 0], [0, 1, 0, 0, 1]] [[0, 1, 2], [2, 3, 4]]"
    by (simp add: well_shaped_def ledger_shaped_def)
  have r: "rounds initial_bomb [(2, 1), (2, 4)] = Inr [[0, 0, 2, 0, 0], [0, 1, 0, 0, 1]]"
    by (simp add: initial_bomb_def ask_for_bombs_def record_attack_def numeral_eq_Suc)
  have p: "destruction_probability [[0, 0, 2, 0, 0], [0, 1, 0, 0, 1]] [[0, 1, 2], [2, 3, 4]] 1 2 = Inr 0"
    using destruction_probability_ship [OF h, of 1 0]
    by (simp add: attacks_on_def frac_ship_def)
  show ?thesis
    using r p
    by (simp add: attacks_on_def report_position_def sample_prob_replicate_False
        successes_replicate_False)
qed

text \<open>
  Claim C9. If after a round's measurement all three ships of both players are destroyed,
  the game-over report is a draw: it names no surviving player, and the loop ends.
\<close>

theorem both_fleets_destroyed_is_draw:
  assumes "fleet_destroyed fleet0" and "fleet_destroyed fleet1"
  shows "game_over_report fleet0 fleet1 = Draw \<and>
         (\<forall>survivor. game_over_report fleet0 fleet1 \<noteq> Survivor survivor) \<and>
         \<not> display_grid_game fleet0 fleet1"
  using assms by (simp add: game_over_report_def display_grid_game_def)

theorem both_fleets_destroyed_is_draw_witness:
  "fleet_destroyed ([True, True], [True], [True, True, True]) \<and>
   fleet_destroyed ([True], [True, True], [True]) \<and>
   game_over_report ([True, True], [True], [True, True, True]) ([True], [True, True], [True]) = Draw"
proof -
  have h: "fleet_destroyed ([True, True], [True], [True, True, True])"
    and h': "fleet_destroyed ([True], [True, True], [True])"
    by (simp_all add: destroyed_def damage_percent_def successes_def)
  show ?thesis
    using h h' both_fleets_destroyed_is_draw [OF h h'] by simp
qed

subsection \<open>The ledger only grows\<close>

lemma ledger_shaped_update:
  assumes "ledger_shaped bomb" and "attacker < 2"
  shows "ledger_shaped (bomb[attacker := (bomb ! attacker)[position := n]])"
proof -
  have "length ((bomb ! attacker)[position := n]) = 5"
    using assms by (simp add: ledger_shaped_def)
  then have "\<forall>row \<in> set (bomb[attacker := (bomb ! attacker)[position := n]]). length row = 5"
    using assms(1) set_update_subset_insert [of bomb attacker "(bomb ! attacker)[position := n]"]
    by (auto simp add: ledger_shaped_def)
  then show ?thesis
    using assms(1) by (simp add: ledger_shaped_def)
qed

lemma attacks_on_update:
  assumes "ledger_shaped bomb" and "attacker < 2" and "position < 5" and "a < 2" and "q < 5"
  shows "attacks_on (bomb[attacker := (bomb ! attacker)[position := n]]) a q
           = (if a = attacker \<and> q = position then n else attacks_on bomb a q)"
proof -
  have "attacker < length bomb" "position < length (bomb ! attacker)"
    using assms(1-3) by (simp_all add: ledger_shaped_def)
  then show ?thesis
    by (simp add: attacks_on_def nth_list_update)
qed

lemma record_attack_counts:
  assumes "ledger_shaped bomb" and "attacker < 2" and "position < 5"
  shows "\<exists>bomb'. record_attack bomb attacker position = Inr bomb' \<and> ledger_shaped bomb' \<and>
           (\<forall>a<2. \<forall>q<5. attacks_on bomb' a q
                = attacks_on bomb a q + (if a = attacker \<and> q = position then 1 else 0))"
  using assms ledger_shaped_update [OF assms(1,2)]
  by (simp add: record_attack_def attacks_on_update) (simp add: attacks_on_def)

lemma ask_for_bombs_counts:
  assumes "ledger_shaped bomb" and "fst targets < 5" and "snd targets < 5"
  shows "\<exists>bomb'. ask_for_bombs bomb targets = Inr bomb' \<and> ledger_shaped bomb' \<and>
           (\<forall>a<2. \<forall>q<5. attacks_on bomb' a q
                = attacks_on bomb a q
                  + (if (a = 0 \<and> q = fst targets) \<or> (a = 1 \<and> q = snd targets) then 1 else 0))"
proof -
  from record_attack_counts [OF assms(1) _ assms(2), of 0] obtain b0 where
    b0: "record_attack bomb 0 (fst targets) = Inr b0" "ledger_shaped b0"
    "\<forall>a<2. \<forall>q<5. attacks_on b0 a q
        = attacks_on bomb a q + (if a = 0 \<and> q = fst targets then 1 else 0)"
    by auto
  from record_attack_counts [OF b0(2) _ assms(3), of 1] obtain b1 where
    b1: "record_attack b0 1 (snd targets) = Inr b1" "ledger_shaped b1"
    "\<forall>a<2. \<forall>q<5. attacks_on b1 a q
        = attacks_on b0 a q + (if a = 1 \<and> q = snd targets then 1 else 0)"
    by auto
  have "ask_for_bombs bomb targets = Inr b1"
    using b0(1) b1(1) by (simp add: ask_for_bombs_def)
  moreover have "\<forall>a<2. \<forall>q<5. attacks_on b1 a q
      = attacks_on bomb a q
        + (if (a = 0 \<and> q = fst targets) \<or> (a = 1 \<and> q = snd targets) then 1 else 0)"
    using b0(3) b1(3) by auto
  ultimately show ?thesis using b1(2) by blast
qed

lemma rounds_counts:
  assumes "ledger_shaped bomb" and "\<forall>t \<in> set targets. fst t < 5 \<and> snd t < 5"
  shows "\<exists>bomb'. rounds bomb targets = Inr bomb' \<and> ledger_shaped bomb' \<and>
           (\<forall>a<2. \<forall>q<5. attacks_on bomb a q \<le> attacks_on bomb' a q)"
  using assms
proof (induction targets arbitrary: bomb)
  case Nil
  then show ?case by simp
next
  case (Cons t targets)
  have "fst t < 5" "snd t < 5" using Cons.prems(2) by simp_all
  from ask_for_bombs_counts [OF Cons.prems(1) this] obtain b1 where
    b1: "ask_for_bombs bomb t = Inr b1" "ledger_shaped b1"
    "\<forall>a<2. \<forall>q<5. attacks_on b1 a q
        = attacks_on bomb a q + (if (a = 0 \<and> q = fst t) \<or> (a = 1 \<and> q = snd t) then 1 else 0)"
    by blast
  have "\<forall>t \<in> set targets. fst t < 5 \<and> snd t < 5" using Cons.prems(2) by simp
  from Cons.IH [OF b1(2) this] obtain b2 where
    b2: "rounds b1 targets = Inr b2" "ledger_shaped b2"
    "\<forall>a<2. \<forall>q<5. attacks_on b1 a q \<le> attacks_on b2 a q"
    by blast
  have "rounds bomb (t # targets) = Inr b2"
    using b1(1) b2(1) by simp
  moreover have "\<forall>a<2. \<forall>q<5. attacks_on bomb a q \<le> attacks_on b2 a q"
  proof (intro allI impI)
    fix a q :: nat
    assume "a < 2" "q < 5"
    then have "attacks_on bomb a q \<le> attacks_on b1 a q" "attacks_on b1 a q \<le> attacks_on b2 a q"
      using b1(3) b2(3) by simp_all
    then show "attacks_on bomb a q \<le> attacks_on b2 a q" by (rule order_trans)
  qed
  ultimately show ?case using b2(2) by blast
qed

lemma ledger_shaped_initial: "ledger_shaped initial_bomb"
  by (simp add: ledger_shaped_def initial_bomb_def)

text \<open>
  Claim C8. The attack counts per (player, position) never decrease across rounds. A round
  with valid targets returns a ledger in which the two targeted cells, one per attacking
  player, are incremented by exactly 1 and every other count is the same; and after any
  number of further rounds every count is at least what it was.
\<close>

theorem attack_counts_never_decrease:
  assumes "ledger_shaped bomb" and "fst targets < 5" and "snd targets < 5"
    and "\<forall>t \<in> set later. fst t < 5 \<and> snd t < 5"
  shows "\<exists>bomb' bomb''.
           ask_for_bombs bomb targets = Inr bomb' \<and>
           (\<forall>a<2. \<forall>q<5. attacks_on bomb' a q
                = attacks_on bomb a q
                  + (if (a = 0 \<and> q = fst targets) \<or> (a = 1 \<and> q = snd targets) then 1 else 0)) \<and>
           rounds bomb (targets # later) = Inr bomb'' \<and>
           (\<forall>a<2. \<forall>q<5. attacks_on bomb a q \<le> attacks_on bomb' a q \<and>
                           attacks_on bomb' a q \<le> attacks_on bomb'' a q)"
proof -
  from ask_for_bombs_counts [OF assms(1-3)] obtain b1 where
    b1: "ask_for_bombs bomb targets = Inr b1" "ledger_shaped b1"
    "\<forall>a<2. \<forall>q<5. attacks_on b1 a q
        = attacks_on bomb a q
          + (if (a = 0 \<and> q = fst targets) \<or> (a = 1 \<and> q = snd targets) then 1 else 0)"
    by blast
  from rounds_counts [OF b1(2) assms(4)] obtain b2 where
    b2: "rounds b1 later = Inr b2"
    "\<forall>a<2. \<forall>q<5. attacks_on b1 a q \<le> attacks_on b2 a q"
    by blast
  have "rounds bomb (targets # later) = Inr b2"
    using b1(1) b2(1) by simp
  moreover have "\<forall>a<2. \<forall>q<5. attacks_on bomb a q \<le> attacks_on b1 a q \<and>
      attacks_on b1 a q \<le> attacks_on b2 a q"
    using b1(3) b2(2) by simp
  ultimately show ?thesis using b1(1,3) by blast
qed

theorem attack_counts_never_decrease_witness:
  "ledger_shaped initial_bomb \<and> fst (0::nat, 1::nat) < 5 \<and> snd (0::nat, 1::nat) < 5 \<and>
   fst (2::nat, 4::nat) < 5 \<and> snd (2::nat, 4::nat) < 5 \<and>
   fst (3::nat, 1::nat) < 5 \<and> snd (3::nat, 1::nat) < 5 \<and>
   (\<exists>bomb' bomb''.
      ask_for_bombs initial_bomb (0, 1) = Inr bomb' \<and>
      rounds initial_bomb [(0, 1), (2, 4), (3, 1)] = Inr bomb'' \<and>
      (\<forall>a<2. \<forall>q<5. attacks_on initial_bomb a q \<le> attacks_on bomb' a q \<and>
                      attacks_on bomb' a q \<le> attacks_on bomb'' a q))"
proof -
  have h: "\<forall>t \<in> set [(2::nat, 4::nat), (3, 1)]. fst t < 5 \<and> snd t < 5"
    by simp
  have t: "fst (0::nat, 1::nat) < 5" "snd (0::nat, 1::nat) < 5"
    by simp_all
  from attack_counts_never_decrease [OF ledger_shaped_initial t h]
  obtain bomb' bomb'' where
    "ask_for_bombs initial_bomb (0, 1) = Inr bomb'"
    "rounds initial_bomb [(0, 1), (2, 4), (3, 1)] = Inr bomb''"
    "\<forall>a<2. \<forall>q<5. attacks_on initial_bomb a q \<le> attacks_on bomb' a q \<and>
                    attacks_on bomb' a q \<le> attacks_on bomb'' a q"
    by blast
  then have "\<exists>bomb' bomb''.
      ask_for_bombs initial_bomb (0, 1) = Inr bomb' \<and>
      rounds initial_bomb [(0, 1), (2, 4), (3, 1)] = Inr bomb'' \<and>
      (\<forall>a<2. \<forall>q<5. attacks_on initial_bomb a q \<le> attacks_on bomb' a q \<and>
                      attacks_on bomb' a q \<le> attacks_on bomb'' a q)"
    by blast
  then show ?thesis
    using ledger_shaped_initial by simp
qed

end
